theory Spec2Isabelle
  imports Complex_Main
begin

section \<open>The point recycling pool (services/memoryOptimizer.ts)\<close>

text \<open>
  A \<open>Point\<close> is a mutable JavaScript object, so the model keeps an explicit object store:
  a point is known by its address, the store maps an address to the coordinates the object
  currently holds, and \<open>{ x, y }\<close> allocates the next unused address. The pool array holds
  references; an array slot may hold \<open>undefined\<close>, which is \<open>None\<close>.
\<close>

datatype error = TypeError | RemoteError

type_synonym addr = nat

record point =
  point_x :: real
  point_y :: real

record pool_state =
  pool :: "addr option list"
  heap :: "addr \<rightharpoonup> point"
  nextAddr :: addr

definition maxPoolSize :: nat where
  "maxPoolSize = 500"

definition pointPool :: pool_state where
  "pointPool = \<lparr>pool = [], heap = Map.empty, nextAddr = 0\<rparr>"

text \<open>\<open>points[i]\<close>: reading a JavaScript array out of range gives \<open>undefined\<close>.\<close>

definition js_index :: "'a list \<Rightarrow> nat \<Rightarrow> 'a option" where
  "js_index xs i = (if i < length xs then Some (xs ! i) else None)"

text \<open>
  \<open>obtain(x, y)\<close>: pops the last pooled reference and overwrites its fields, or allocates.
  Writing a field of \<open>undefined\<close> raises a TypeError.
\<close>

definition PointPool_obtain :: "real \<Rightarrow> real \<Rightarrow> pool_state \<Rightarrow> error + (addr \<times> pool_state)" where
  "PointPool_obtain x y s =
     (if length (pool s) > 0 then
        (case last (pool s) of
           None \<Rightarrow> Inl TypeError
         | Some p \<Rightarrow>
             Inr (p, s\<lparr>pool := butlast (pool s),
                       heap := (heap s)(p \<mapsto> \<lparr>point_x = x, point_y = y\<rparr>)\<rparr>))
      else
        Inr (nextAddr s,
             s\<lparr>heap := (heap s)(nextAddr s \<mapsto> \<lparr>point_x = x, point_y = y\<rparr>),
               nextAddr := Suc (nextAddr s)\<rparr>))"

text \<open>The \<open>for\<close> loop of \<open>recycle\<close>: pushes \<open>points[i]\<close> for \<open>i\<close> from its start up to \<open>count\<close>.\<close>

function recycle_loop :: "addr list \<Rightarrow> nat \<Rightarrow> nat \<Rightarrow> addr option list \<Rightarrow> addr option list" where
  "recycle_loop points count i pl =
     (if i < count then recycle_loop points count (i + 1) (pl @ [js_index points i]) else pl)"
  by pat_completeness auto
termination
  by (relation "measure (\<lambda>(points, count, i, pl). count - i)") auto

declare recycle_loop.simps [simp del]

definition PointPool_recycle :: "addr list \<Rightarrow> pool_state \<Rightarrow> pool_state" where
  "PointPool_recycle points s =
     (if length (pool s) < maxPoolSize then
        (let count = min (length points) (maxPoolSize - length (pool s))
         in s\<lparr>pool := recycle_loop points count 0 (pool s)\<rparr>)
      else s)"

definition PointPool_cleanup :: "pool_state \<Rightarrow> pool_state" where
  "PointPool_cleanup s = s\<lparr>pool := []\<rparr>"

text \<open>Any sequence of calls on the pool, stopping at the first exception.\<close>

datatype pool_op = Obtain real real | Recycle "addr list" | Cleanup

fun pool_step :: "pool_op \<Rightarrow> pool_state \<Rightarrow> error + pool_state" where
  "pool_step (Obtain x y) s =
     (case PointPool_obtain x y s of Inl e \<Rightarrow> Inl e | Inr (p, s') \<Rightarrow> Inr s')"
| "pool_step (Recycle points) s = Inr (PointPool_recycle points s)"
| "pool_step Cleanup s = Inr (PointPool_cleanup s)"

fun pool_run :: "pool_op list \<Rightarrow> pool_state \<Rightarrow> error + pool_state" where
  "pool_run [] s = Inr s"
| "pool_run (c # cs) s =
     (case pool_step c s of Inl e \<Rightarrow> Inl e | Inr s' \<Rightarrow> pool_run cs s')"

definition pool_ok :: "pool_state \<Rightarrow> bool" where
  "pool_ok s = (length (pool s) \<le> maxPoolSize \<and> None \<notin> set (pool s))"


section \<open>JavaScript string operations used by the handlers\<close>

text \<open>
  A JavaScript string is a sequence of UTF-16 code units; here it is a \<open>string\<close>, one
  \<open>char\<close> for each code unit, so the model covers the code units below 256.
  \<open>isWhiteSpace\<close> lists the white space and line terminators of that range, which is
  what \<open>trim\<close> and \<open>trimEnd\<close> strip.
\<close>

definition isWhiteSpace :: "char \<Rightarrow> bool" where
  "isWhiteSpace c =
     (c \<in> set [CHR 0x09, CHR 0x0A, CHR 0x0B, CHR 0x0C, CHR 0x0D, CHR 0x20, CHR 0xA0])"

definition trimStart :: "string \<Rightarrow> string" where
  "trimStart s = dropWhile isWhiteSpace s"

definition trimEnd :: "string \<Rightarrow> string" where
  "trimEnd s = rev (dropWhile isWhiteSpace (rev s))"

definition trim :: "string \<Rightarrow> string" where
  "trim s = trimStart (trimEnd s)"

definition endsWith :: "string \<Rightarrow> string \<Rightarrow> bool" where
  "endsWith s t = (length t \<le> length s \<and> drop (length s - length t) s = t)"

definition startsWith :: "string \<Rightarrow> string \<Rightarrow> bool" where
  "startsWith s t = (take (length t) s = t)"

text \<open>\<open>s.split(sep)\<close> for a separator of one code unit; the result is never empty.\<close>

fun split_on :: "char \<Rightarrow> string \<Rightarrow> string list" where
  "split_on sep [] = [[]]"
| "split_on sep (c # cs) =
     (if c = sep then [] # split_on sep cs
      else (case split_on sep cs of
              [] \<Rightarrow> [[c]]
            | w # ws \<Rightarrow> (c # w) # ws))"

text \<open>\<open>s.lastIndexOf(c)\<close>: the scan keeps the last index seen, starting from \<open>-1\<close>.\<close>

fun lastIndexOf_scan :: "string \<Rightarrow> char \<Rightarrow> nat \<Rightarrow> int \<Rightarrow> int" where
  "lastIndexOf_scan [] c i found = found"
| "lastIndexOf_scan (d # ds) c i found =
     lastIndexOf_scan ds c (i + 1) (if d = c then int i else found)"

definition lastIndexOf :: "string \<Rightarrow> char \<Rightarrow> int" where
  "lastIndexOf s c = lastIndexOf_scan s c 0 (- 1)"

text \<open>\<open>s.substring(0, n)\<close>; a negative end counts as 0, one past the end as the length.\<close>

definition substring0 :: "string \<Rightarrow> int \<Rightarrow> string" where
  "substring0 s n = take (nat n) s"

text \<open>
  \<open>[...new Set(s.split(''))].join('')\<close>: a Set keeps its elements in insertion order
  and ignores an element it already holds.
\<close>

definition uniqueChars :: "string \<Rightarrow> string" where
  "uniqueChars s = foldl (\<lambda>seen c. if c \<in> set seen then seen else seen @ [c]) [] s"

text \<open>\<open>v || ""\<close> for \<open>v\<close> a string or \<open>undefined\<close>.\<close>

definition or_empty :: "string option \<Rightarrow> string" where
  "or_empty v = (case v of None \<Rightarrow> [] | Some w \<Rightarrow> w)"


section \<open>Gesture handlers of the keyboard (components/VirtualKeyboard.tsx)\<close>

datatype lang = EN | AR

record kb_settings =
  traceTyping :: bool
  incognitoMode :: bool
  encryptKeystrokes :: bool
  language :: lang
  keyboardHeight :: real

text \<open>The optional callbacks of the component: \<open>True\<close> when the host passes one.\<close>

record kb_props =
  isButtonEditMode :: bool
  isResizeMode :: bool
  onSwipeLeft :: bool
  onSwipeRight :: bool
  onSwipeDown :: bool
  onTraceEnd :: bool
  onUpdateSize :: bool

record touch =
  clientX :: real
  clientY :: real

text \<open>
  A touch event as the handlers read it. \<open>keyUnder\<close> is the \<open>data-key-value\<close> attribute of
  the element that \<open>document.elementFromPoint\<close> finds under the first touch (\<open>None\<close> when
  there is no element or no attribute); \<open>canvasMounted\<close> says that both the canvas and the
  container refs are set.
\<close>

record touch_event =
  touches :: "touch list"
  changedTouches :: "touch list"
  keyUnder :: "string option"
  canvasMounted :: bool

text \<open>
  Coordinates are JavaScript numbers, that is IEEE doubles. The coordinates of a touch are
  finite, so they are reals. The result of an arithmetic operation on them is rounded to a
  double and may overflow: it is a finite double or an infinity (never NaN, since the
  operands are finite). The two operations the handlers use, the subtraction \<open>a - b\<close> and
  \<open>Math.hypot\<close>, are parameters of the handlers: the model fixes neither the rounding nor
  the overflow of doubles, and what is proved holds for every such pair of operations.
\<close>

datatype jsnum = Finite real | PosInfinity | NegInfinity

record js_arith =
  double_minus :: "real \<Rightarrow> real \<Rightarrow> jsnum"
  double_hypot :: "jsnum \<Rightarrow> jsnum \<Rightarrow> jsnum"

text \<open>\<open>Math.abs(a)\<close>, the comparison \<open>a > b\<close> and \<open>Math.max(a, b)\<close> on such results.\<close>

fun num_abs :: "jsnum \<Rightarrow> jsnum" where
  "num_abs (Finite a) = Finite \<bar>a\<bar>"
| "num_abs PosInfinity = PosInfinity"
| "num_abs NegInfinity = PosInfinity"

fun num_gt :: "jsnum \<Rightarrow> jsnum \<Rightarrow> bool" where
  "num_gt (Finite a) (Finite b) = (a > b)"
| "num_gt (Finite a) PosInfinity = False"
| "num_gt (Finite a) NegInfinity = True"
| "num_gt PosInfinity PosInfinity = False"
| "num_gt PosInfinity (Finite b) = True"
| "num_gt PosInfinity NegInfinity = True"
| "num_gt NegInfinity b = False"

definition num_max :: "jsnum \<Rightarrow> jsnum \<Rightarrow> jsnum" where
  "num_max a b = (if num_gt b a then b else a)"

record kb_state =
  touchStart :: "(real \<times> real) option"
  swipePath :: string
  tracePoints :: "addr list"
  initialPinchDistance :: "jsnum option"
  initialHeight :: real
  trackerPool :: pool_state

text \<open>The callbacks a handler invokes, in order.\<close>

datatype callback = SwipeLeft | SwipeRight | SwipeDown | TraceEnd string

definition handleTouchStart ::
  "js_arith \<Rightarrow> kb_settings \<Rightarrow> kb_props \<Rightarrow> touch_event \<Rightarrow> kb_state \<Rightarrow> error + kb_state" where
  "handleTouchStart arith settings props e s =
     (case touches e of
        [t0, t1] \<Rightarrow>
          Inr (s\<lparr>initialPinchDistance :=
                   Some (double_hypot arith
                           (double_minus arith (clientX t0) (clientX t1))
                           (double_minus arith (clientY t0) (clientY t1))),
                 initialHeight := keyboardHeight settings\<rparr>)
      | [] \<Rightarrow> Inl TypeError
      | t # ts \<Rightarrow>
          (if traceTyping settings \<and> \<not> isButtonEditMode props \<and> \<not> isResizeMode props then
             (let s1 = s\<lparr>touchStart := Some (clientX t, clientY t), swipePath := []\<rparr>;
                  s2 = (if length (tracePoints s1) > 0
                        then s1\<lparr>trackerPool := PointPool_recycle (tracePoints s1) (trackerPool s1),
                                tracePoints := []\<rparr>
                        else s1)
              in case PointPool_obtain (clientX t) (clientY t) (trackerPool s2) of
                   Inl err \<Rightarrow> Inl err
                 | Inr (p, pl) \<Rightarrow>
                     Inr (s2\<lparr>tracePoints := tracePoints s2 @ [p], trackerPool := pl\<rparr>))
           else Inr s))"

text \<open>
  The pinch branch only schedules a resize request for the host; it leaves the gesture state
  as it is, and so does the model.
\<close>

definition handleTouchMove ::
  "kb_settings \<Rightarrow> kb_props \<Rightarrow> touch_event \<Rightarrow> kb_state \<Rightarrow> error + kb_state" where
  "handleTouchMove settings props e s =
     (if length (touches e) = 2 \<and> initialPinchDistance s \<noteq> None \<and> onUpdateSize props
      then Inr s
      else if traceTyping settings \<and> touchStart s \<noteq> None \<and> \<not> isButtonEditMode props then
        (case js_index (touches e) 0 of
           None \<Rightarrow> Inl TypeError
         | Some t \<Rightarrow>
             (let s1 = (case keyUnder e of
                          None \<Rightarrow> s
                        | Some keyVal \<Rightarrow>
                            (if keyVal \<noteq> [] \<and> \<not> endsWith (swipePath s) keyVal
                             then s\<lparr>swipePath := swipePath s @ keyVal\<rparr>
                             else s))
              in if canvasMounted e then
                   (case PointPool_obtain (clientX t) (clientY t) (trackerPool s1) of
                      Inl err \<Rightarrow> Inl err
                    | Inr (p, pl) \<Rightarrow>
                        Inr (s1\<lparr>tracePoints := tracePoints s1 @ [p], trackerPool := pl\<rparr>))
                 else Inr s1))
      else Inr s)"

definition handleTouchEnd ::
  "js_arith \<Rightarrow> kb_settings \<Rightarrow> kb_props \<Rightarrow> touch_event \<Rightarrow> kb_state
     \<Rightarrow> error + (callback list \<times> kb_state)" where
  "handleTouchEnd arith settings props e s =
     (let s0 = s\<lparr>initialPinchDistance := None\<rparr> in
      case touchStart s0 of
        None \<Rightarrow> Inr ([], s0)
      | Some (sx, sy) \<Rightarrow>
          (if traceTyping settings then
             (case js_index (changedTouches e) 0 of
                None \<Rightarrow> Inl TypeError
              | Some t \<Rightarrow>
                  (let dx = double_minus arith (clientX t) sx;
                       dy = double_minus arith (clientY t) sy;
                       fired =
                         (if num_gt (num_abs dx) (Finite 50) \<or> num_gt (num_abs dy) (Finite 50)
                          then
                            (if num_gt (num_abs dx) (num_abs dy) then
                               (if num_gt dx (Finite 0) \<and> onSwipeRight props then [SwipeRight]
                                else if num_gt (Finite 0) dx \<and> onSwipeLeft props
                                then [SwipeLeft]
                                else [])
                             else
                               (if num_gt dy (Finite 0) \<and> onSwipeDown props
                                then [SwipeDown] else []))
                          else if length (swipePath s0) > 2 \<and> onTraceEnd props
                          then [TraceEnd (swipePath s0)]
                          else [])
                   in Inr (fired,
                           s0\<lparr>touchStart := None, swipePath := [],
                              trackerPool := PointPool_recycle (tracePoints s0) (trackerPool s0),
                              tracePoints := []\<rparr>)))
           else Inr ([], s0)))"

text \<open>A run of touch-move events, stopping at the first exception.\<close>

fun touchMoves ::
  "kb_settings \<Rightarrow> kb_props \<Rightarrow> touch_event list \<Rightarrow> kb_state \<Rightarrow> error + kb_state" where
  "touchMoves settings props [] s = Inr s"
| "touchMoves settings props (e # es) s =
     (case handleTouchMove settings props e s of
        Inl err \<Rightarrow> Inl err
      | Inr s' \<Rightarrow> touchMoves settings props es s')"

text \<open>
  The move event of a single finger over an element whose \<open>data-key-value\<close> is \<open>k\<close> (a key
  value of any length, or \<open>None\<close> over no key), and over a key with the one-character
  value \<open>c\<close>.
\<close>

definition keyMove :: "touch \<Rightarrow> bool \<Rightarrow> string option \<Rightarrow> touch_event" where
  "keyMove t mounted k =
     \<lparr>touches = [t], changedTouches = [t], keyUnder = k, canvasMounted = mounted\<rparr>"

definition moveOver :: "touch \<Rightarrow> bool \<Rightarrow> char \<Rightarrow> touch_event" where
  "moveOver t mounted c =
     \<lparr>touches = [t], changedTouches = [t], keyUnder = Some [c], canvasMounted = mounted\<rparr>"

text \<open>
  The rule for one key value, as the specification of the crossing string states it: the
  value is appended unless there is none, it is empty, or the string already ends with it.
\<close>

definition crossKey :: "string \<Rightarrow> string option \<Rightarrow> string" where
  "crossKey p k =
     (case k of
        None \<Rightarrow> p
      | Some v \<Rightarrow> (if v = [] \<or> endsWith p v then p else p @ v))"


section \<open>The decoder (services/geminiService.ts)\<close>

text \<open>
  The generative-AI client is outside the repository: \<open>generateContent\<close> is a parameter that
  maps a request to an exception or to the response's \<open>text\<close>, which may be \<open>undefined\<close>.
  The module variable \<open>genAI\<close> is \<open>None\<close> when no API key is configured.
\<close>

record request =
  model :: string
  contents :: string

type_synonym genai = "request \<Rightarrow> error + string option"

definition MODEL_NAME :: string where
  "MODEL_NAME = ''gemini-2.5-flash''"

definition swipePrompt :: "string \<Rightarrow> string \<Rightarrow> string \<Rightarrow> string" where
  "swipePrompt tracePath ctx langName =
     ''The user is using a gesture typing keyboard.'' @ [CHR 0x0A] @
     ''      Trace: '' @ [CHR 0x22] @ tracePath @ [CHR 0x22] @
     ''. Context: '' @ [CHR 0x22] @ ctx @ [CHR 0x22] @
     ''. Language: '' @ langName @ ''.'' @ [CHR 0x0A] @
     ''      Return ONLY the single most likely word.''"

text \<open>The body of the \<open>try\<close> block, which may throw.\<close>

definition decipherSwipe_try :: "genai \<Rightarrow> string \<Rightarrow> string \<Rightarrow> string \<Rightarrow> error + string" where
  "decipherSwipe_try generateContent tracePath ctx languageCode =
     (if length tracePath < 3 then Inr tracePath
      else
        (let langName = (if languageCode = ''AR'' then ''Arabic'' else ''English'') in
         case generateContent
                \<lparr>model = MODEL_NAME, contents = swipePrompt tracePath ctx langName\<rparr> of
           Inl err \<Rightarrow> Inl err
         | Inr None \<Rightarrow> Inr (or_empty None)
         | Inr (Some txt) \<Rightarrow> Inr (or_empty (js_index (split_on CHR '' '' (trim txt)) 0))))"

definition decipherSwipe :: "genai option \<Rightarrow> string \<Rightarrow> string \<Rightarrow> string \<Rightarrow> error + string" where
  "decipherSwipe genAI tracePath ctx languageCode =
     (case genAI of
        None \<Rightarrow> Inr []
      | Some generateContent \<Rightarrow>
          (if trim tracePath = [] then Inr []
           else
             (case decipherSwipe_try generateContent tracePath ctx languageCode of
                Inl err \<Rightarrow> Inr (uniqueChars tracePath)
              | Inr word \<Rightarrow> Inr word)))"

text \<open>
  What the remote call of \<open>decipherSwipe\<close> gives: \<open>None\<close> when the function returns without
  calling the client, else the exception or the response text of the call.
\<close>

definition remoteCall ::
  "genai option \<Rightarrow> string \<Rightarrow> string \<Rightarrow> string \<Rightarrow> (error + string option) option" where
  "remoteCall genAI tracePath ctx languageCode =
     (case genAI of
        None \<Rightarrow> None
      | Some generateContent \<Rightarrow>
          (if trim tracePath = [] \<or> length tracePath < 3 then None
           else Some (generateContent
                  \<lparr>model = MODEL_NAME,
                   contents = swipePrompt tracePath ctx
                                (if languageCode = ''AR'' then ''Arabic'' else ''English'')\<rparr>)))"

text \<open>A client whose every call throws, and one that answers every request with \<open>reply\<close>.\<close>

definition failingClient :: genai where
  "failingClient req = Inl RemoteError"

definition replyingClient :: "string \<Rightarrow> genai" where
  "replyingClient reply req = Inr (Some reply)"

text \<open>A client whose responses carry no text.\<close>

definition silentClient :: genai where
  "silentClient req = Inr None"


section \<open>Handlers of the host application (App.tsx)\<close>

text \<open>
  The state the handlers touch. \<open>learned\<close> lists the calls of the frequency learner
  \<open>learnFromUser\<close> and \<open>decodeCalls\<close> the calls of \<open>decipherSwipe\<close>, each with its
  arguments, oldest first. A handler runs to its end before the next one starts.
\<close>

record app_state =
  text_buffer :: string
  isLoading :: bool
  isKeyboardVisible :: bool
  learned :: "(string \<times> bool \<times> string) list"
  decodeCalls :: "(string \<times> string \<times> string) list"

definition lang_code :: "lang \<Rightarrow> string" where
  "lang_code l = (case l of EN \<Rightarrow> ''EN'' | AR \<Rightarrow> ''AR'')"

definition handleSwipeLeft :: "app_state \<Rightarrow> app_state" where
  "handleSwipeLeft st =
     (let prev = text_buffer st;
          trimmed = trimEnd prev;
          lastSpaceIndex = lastIndexOf trimmed CHR '' ''
      in st\<lparr>text_buffer :=
               (if lastSpaceIndex = - 1 then []
                else substring0 trimmed lastSpaceIndex @ '' '')\<rparr>)"

definition handleSwipeRight :: "app_state \<Rightarrow> app_state" where
  "handleSwipeRight st = st\<lparr>text_buffer := text_buffer st @ '' ''\<rparr>"

definition handleSwipeDown :: "app_state \<Rightarrow> app_state" where
  "handleSwipeDown st = st\<lparr>isKeyboardVisible := False\<rparr>"

text \<open>The function that \<open>handleTraceEnd\<close> passes to \<open>setText\<close>, with its call of the learner.\<close>

definition appendWord :: "kb_settings \<Rightarrow> string \<Rightarrow> app_state \<Rightarrow> app_state" where
  "appendWord settings decipheredWord st =
     (let prev = text_buffer st;
          needsSpace = (length prev > 0 \<and> \<not> endsWith prev '' '' \<and>
                        \<not> startsWith decipheredWord '' '');
          newText = prev @ (if needsSpace then '' '' else []) @ decipheredWord @ '' '';
          st1 = (if \<not> incognitoMode settings \<and> \<not> encryptKeystrokes settings
                 then st\<lparr>learned :=
                           learned st @ [(decipheredWord, False, lang_code (language settings))]\<rparr>
                 else st)
      in st1\<lparr>text_buffer := newText\<rparr>)"

definition traceContext :: "kb_settings \<Rightarrow> app_state \<Rightarrow> string" where
  "traceContext settings st =
     (if incognitoMode settings \<or> encryptKeystrokes settings then [] else text_buffer st)"

definition handleTraceEnd :: "kb_settings \<Rightarrow> genai option \<Rightarrow> string \<Rightarrow> app_state \<Rightarrow> app_state" where
  "handleTraceEnd settings genAI path st =
     (if path = [] then st
      else
        (let st1 = st\<lparr>isLoading := True\<rparr>;
             ctx = traceContext settings st1;
             st2 = st1\<lparr>decodeCalls :=
                         decodeCalls st1 @ [(path, ctx, lang_code (language settings))]\<rparr>;
             st3 = (case decipherSwipe genAI path ctx (lang_code (language settings)) of
                      Inl err \<Rightarrow> st2
                    | Inr decipheredWord \<Rightarrow>
                        (if decipheredWord \<noteq> [] then appendWord settings decipheredWord st2
                         else st2))
         in st3\<lparr>isLoading := False\<rparr>))"


text \<open>
  The host passes \<open>handleSwipeLeft\<close>, \<open>handleSwipeRight\<close>, \<open>handleSwipeDown\<close> and
  \<open>handleTraceEnd\<close> as the keyboard's callbacks; \<open>hostCallbacks\<close> runs the callbacks that a
  keyboard handler invoked, in order.
\<close>

definition hostCallback :: "kb_settings \<Rightarrow> genai option \<Rightarrow> callback \<Rightarrow> app_state \<Rightarrow> app_state" where
  "hostCallback settings genAI cb st =
     (case cb of
        SwipeLeft \<Rightarrow> handleSwipeLeft st
      | SwipeRight \<Rightarrow> handleSwipeRight st
      | SwipeDown \<Rightarrow> handleSwipeDown st
      | TraceEnd path \<Rightarrow> handleTraceEnd settings genAI path st)"

fun hostCallbacks :: "kb_settings \<Rightarrow> genai option \<Rightarrow> callback list \<Rightarrow> app_state \<Rightarrow> app_state" where
  "hostCallbacks settings genAI [] st = st"
| "hostCallbacks settings genAI (cb # cbs) st =
     hostCallbacks settings genAI cbs (hostCallback settings genAI cb st)"

section \<open>A gesture from touch-start on, and the states used in the examples\<close>

text \<open>
  The crossing string accumulated by a touch-start followed by touch-move events, or
  \<open>None\<close> when a handler raised an exception.
\<close>

definition crossingString ::
  "js_arith \<Rightarrow> kb_settings \<Rightarrow> kb_props \<Rightarrow> touch_event \<Rightarrow> touch_event list \<Rightarrow> kb_state
     \<Rightarrow> string option" where
  "crossingString arith settings props e0 es s =
     (case handleTouchStart arith settings props e0 s of
        Inl err \<Rightarrow> None
      | Inr s1 \<Rightarrow>
          (case touchMoves settings props es s1 of
             Inl err \<Rightarrow> None
           | Inr s2 \<Rightarrow> Some (swipePath s2)))"

text \<open>The settings of the host with trace typing switched on.\<close>

definition tracingSettings :: kb_settings where
  "tracingSettings =
     \<lparr>traceTyping = True, incognitoMode = False, encryptKeystrokes = False,
      language = EN, keyboardHeight = 300\<rparr>"

text \<open>The props the host passes: every callback, neither edit nor resize mode.\<close>

definition hostProps :: kb_props where
  "hostProps =
     \<lparr>isButtonEditMode = False, isResizeMode = False, onSwipeLeft = True,
      onSwipeRight = True, onSwipeDown = True, onTraceEnd = True, onUpdateSize = True\<rparr>"

text \<open>
  Arithmetic without rounding. It gives what the doubles give wherever the exact result is
  itself a double, as for the whole-number coordinates of the examples.
\<close>

definition exactArith :: js_arith where
  "exactArith =
     \<lparr>double_minus = (\<lambda>a b. Finite (a - b)),
      double_hypot = (\<lambda>a b. case (a, b) of
                                 (Finite u, Finite v) \<Rightarrow> Finite (sqrt (u * u + v * v))
                               | _ \<Rightarrow> PosInfinity)\<rparr>"

definition touchAt :: "real \<Rightarrow> real \<Rightarrow> touch" where
  "touchAt a b = \<lparr>clientX = a, clientY = b\<rparr>"

text \<open>A single-finger event at a touch, over no key.\<close>

definition fingerAt :: "touch \<Rightarrow> touch_event" where
  "fingerAt t = \<lparr>touches = [t], changedTouches = [t], keyUnder = None, canvasMounted = True\<rparr>"

text \<open>The tracker as the component mounts it.\<close>

definition idleTracker :: kb_state where
  "idleTracker =
     \<lparr>touchStart = None, swipePath = [], tracePoints = [], initialPinchDistance = None,
      initialHeight = 0, trackerPool = pointPool\<rparr>"

text \<open>The tracker in the middle of a trace that started at \<open>(100, 100)\<close> and crossed \<open>path\<close>.\<close>

definition tracingFrom100 :: "string \<Rightarrow> kb_state" where
  "tracingFrom100 path =
     \<lparr>touchStart = Some (100, 100), swipePath = path, tracePoints = [],
      initialPinchDistance = None, initialHeight = 0, trackerPool = pointPool\<rparr>"

text \<open>The host state with a given text buffer and nothing learned or decoded yet.\<close>

definition appWithText :: "string \<Rightarrow> app_state" where
  "appWithText t =
     \<lparr>text_buffer = t, isLoading = False, isKeyboardVisible = True,
      learned = [], decodeCalls = []\<rparr>"

section \<open>Properties of the point pool\<close>

lemma recycle_loop_unfold:
  "recycle_loop points count i pl = pl @ map (js_index points) [i..<count]"
proof (induction points count i pl rule: recycle_loop.induct)
  case (1 points count i pl)
  show ?case
  proof (cases "i < count")
    case True
    then have "recycle_loop points count i pl
        = (pl @ [js_index points i]) @ map (js_index points) [i + 1..<count]"
      using "1.IH" by (simp add: recycle_loop.simps [of points count i pl])
    also have "\<dots> = pl @ map (js_index points) [i..<count]"
      using True by (simp add: upt_conv_Cons)
    finally show ?thesis .
  next
    case False
    then show ?thesis by (simp add: recycle_loop.simps [of points count i pl])
  qed
qed

lemma recycle_loop_length:
  "length (recycle_loop points count i pl) = length pl + (count - i)"
  by (simp add: recycle_loop_unfold)

lemma recycle_loop_defined:
  assumes "count \<le> length points" and "None \<notin> set pl"
  shows "None \<notin> set (recycle_loop points count i pl)"
  using assms by (auto simp: recycle_loop_unfold js_index_def)

lemma recycle_length:
  "length (pool (PointPool_recycle points s)) =
     (if length (pool s) < maxPoolSize
      then length (pool s) + min (length points) (maxPoolSize - length (pool s))
      else length (pool s))"
  by (simp add: PointPool_recycle_def Let_def recycle_loop_length)

lemma recycle_ok:
  assumes "pool_ok s"
  shows "pool_ok (PointPool_recycle points s)"
proof -
  have len: "length (pool (PointPool_recycle points s)) \<le> maxPoolSize"
    using assms unfolding recycle_length pool_ok_def by auto
  have "None \<notin> set (recycle_loop points
          (min (length points) (maxPoolSize - length (pool s))) 0 (pool s))"
    using assms by (intro recycle_loop_defined) (simp_all add: pool_ok_def)
  then have "None \<notin> set (pool (PointPool_recycle points s))"
    using assms by (simp add: PointPool_recycle_def Let_def pool_ok_def)
  with len show ?thesis by (simp add: pool_ok_def)
qed

lemma cleanup_ok: "pool_ok (PointPool_cleanup s)"
  by (simp add: pool_ok_def PointPool_cleanup_def)

lemma obtain_ok:
  assumes "pool_ok s"
  shows "\<exists>p s'. PointPool_obtain x y s = Inr (p, s') \<and> pool_ok s'"
proof (cases "pool s = []")
  case True
  then show ?thesis
    using assms by (simp add: PointPool_obtain_def pool_ok_def)
next
  case False
  then have "last (pool s) \<in> set (pool s)" by simp
  moreover have "None \<notin> set (pool s)"
    using assms by (simp add: pool_ok_def)
  ultimately have "last (pool s) \<noteq> None" by metis
  then obtain p where p: "last (pool s) = Some p" by blast
  have "None \<notin> set (butlast (pool s))"
    using assms by (auto simp: pool_ok_def dest: in_set_butlastD)
  then show ?thesis
    using assms False p by (auto simp: PointPool_obtain_def pool_ok_def)
qed

lemma pool_step_ok:
  assumes "pool_ok s"
  shows "\<exists>s'. pool_step c s = Inr s' \<and> pool_ok s'"
proof (cases c)
  case (Obtain x y)
  from obtain_ok [OF assms, of x y] show ?thesis
    using Obtain by auto
next
  case (Recycle points)
  then show ?thesis by (simp add: recycle_ok assms)
next
  case Cleanup
  then show ?thesis by (simp add: cleanup_ok)
qed

lemma pool_run_ok:
  "pool_ok s \<Longrightarrow> \<exists>s'. pool_run cs s = Inr s' \<and> pool_ok s'"
proof (induction cs arbitrary: s)
  case Nil
  then show ?case by simp
next
  case (Cons c cs)
  from pool_step_ok [OF Cons.prems, of c]
  obtain s1 where s1: "pool_step c s = Inr s1" "pool_ok s1" by blast
  from Cons.IH [OF s1(2)] show ?case
    using s1(1) by simp
qed

lemma pointPool_ok: "pool_ok pointPool"
  by (simp add: pool_ok_def pointPool_def)

text \<open>
  Claim C8. The pool is created empty with capacity 500. After any sequence of \<open>obtain\<close>,
  \<open>recycle\<close> and \<open>cleanup\<close> calls no call has raised an exception and the pool holds at
  most 500 points; in the state reached, recycling a list longer than the remaining capacity
  leaves the pool at exactly 500 points, and a further \<open>obtain\<close> returns a point.
\<close>

theorem pool_never_exceeds_capacity:
  "maxPoolSize = 500 \<and>
   (\<exists>s. pool_run cs pointPool = Inr s \<and> length (pool s) \<le> maxPoolSize \<and>
        (maxPoolSize - length (pool s) < length pts \<longrightarrow>
           length (pool (PointPool_recycle pts s)) = maxPoolSize) \<and>
        (\<exists>p s'. PointPool_obtain x y s = Inr (p, s')))"
proof -
  from pool_run_ok [OF pointPool_ok, of cs]
  obtain s where run: "pool_run cs pointPool = Inr s" and ok: "pool_ok s" by blast
  have bound: "length (pool s) \<le> maxPoolSize"
    using ok by (simp add: pool_ok_def)
  have full: "length (pool (PointPool_recycle pts s)) = maxPoolSize"
    if "maxPoolSize - length (pool s) < length pts"
    using that bound unfolding recycle_length by auto
  from obtain_ok [OF ok, of x y]
  have "\<exists>p s'. PointPool_obtain x y s = Inr (p, s')" by blast
  with run bound full show ?thesis
    by (auto simp: maxPoolSize_def)
qed

text \<open>
  The statement of C8 after one \<open>obtain\<close> and the recycling of that point: the pool holds one
  point, and recycling 500 more fills it to the capacity.
\<close>

theorem pool_never_exceeds_capacity_witness:
  "\<exists>s. pool_run [Obtain 3 4, Recycle [0]] pointPool = Inr s \<and> length (pool s) = 1 \<and>
       maxPoolSize - length (pool s) < length (replicate 500 (9::nat)) \<and>
       length (pool (PointPool_recycle (replicate 500 9) s)) = maxPoolSize"
proof -
  from pool_never_exceeds_capacity [of "[Obtain 3 4, Recycle [0]]" "replicate 500 9" 0 0]
  obtain s where run: "pool_run [Obtain 3 4, Recycle [0]] pointPool = Inr s"
    and full: "maxPoolSize - length (pool s) < length (replicate 500 (9::nat)) \<longrightarrow>
               length (pool (PointPool_recycle (replicate 500 9) s)) = maxPoolSize"
    by blast
  have "pool_run [Obtain 3 4, Recycle [0]] pointPool =
          Inr \<lparr>pool = [Some 0],
               heap = [0 \<mapsto> \<lparr>point_x = 3, point_y = 4\<rparr>], nextAddr = 1\<rparr>"
    by (simp add: pointPool_def PointPool_obtain_def PointPool_recycle_def maxPoolSize_def
          recycle_loop_unfold js_index_def)
  with run have len: "length (pool s) = 1" by auto
  then have "maxPoolSize - length (pool s) < length (replicate 500 (9::nat))"
    by (simp add: maxPoolSize_def)
  with full run len show ?thesis by blast
qed

text \<open>
  Claim C9. A point returned by \<open>obtain(x, y)\<close> holds the coordinates \<open>(x, y)\<close>. Starting from
  an empty pool, \<open>obtain\<close>, then \<open>recycle\<close> of that one point, then \<open>obtain\<close> again
  returns the same object: the same address, with no new allocation, now holding the new
  coordinates.
\<close>

theorem obtain_reuses_recycled_point:
  "(PointPool_obtain x y s = Inr (p, s') \<longrightarrow>
      heap s' p = Some \<lparr>point_x = x, point_y = y\<rparr>) \<and>
   (pool s = [] \<longrightarrow>
      (\<exists>q s1 s2. PointPool_obtain x y s = Inr (q, s1) \<and>
         PointPool_obtain x2 y2 (PointPool_recycle [q] s1) = Inr (q, s2) \<and>
         heap s2 q = Some \<lparr>point_x = x2, point_y = y2\<rparr> \<and>
         nextAddr s2 = nextAddr s1 \<and> pool s2 = []))"
proof (intro conjI impI)
  assume "PointPool_obtain x y s = Inr (p, s')"
  then show "heap s' p = Some \<lparr>point_x = x, point_y = y\<rparr>"
    by (auto simp: PointPool_obtain_def split: if_splits option.splits)
next
  assume empty: "pool s = []"
  define s1 where "s1 = s\<lparr>heap := (heap s)(nextAddr s \<mapsto> \<lparr>point_x = x, point_y = y\<rparr>),
                          nextAddr := Suc (nextAddr s)\<rparr>"
  have first: "PointPool_obtain x y s = Inr (nextAddr s, s1)"
    using empty by (simp add: PointPool_obtain_def s1_def)
  have pushed: "pool (PointPool_recycle [nextAddr s] s1) = [Some (nextAddr s)]"
    using empty
    by (simp add: PointPool_recycle_def s1_def maxPoolSize_def recycle_loop_unfold js_index_def)
  have rest: "heap (PointPool_recycle [nextAddr s] s1) = heap s1"
    "nextAddr (PointPool_recycle [nextAddr s] s1) = nextAddr s1"
    by (simp_all add: PointPool_recycle_def Let_def)
  define s2 where "s2 = (PointPool_recycle [nextAddr s] s1)
      \<lparr>pool := [], heap := (heap s1)(nextAddr s \<mapsto> \<lparr>point_x = x2, point_y = y2\<rparr>)\<rparr>"
  have second: "PointPool_obtain x2 y2 (PointPool_recycle [nextAddr s] s1) = Inr (nextAddr s, s2)"
    using pushed rest by (simp add: PointPool_obtain_def s2_def)
  have "heap s2 (nextAddr s) = Some \<lparr>point_x = x2, point_y = y2\<rparr>"
    "nextAddr s2 = nextAddr s1" "pool s2 = []"
    using rest by (simp_all add: s2_def)
  with first second
  show "\<exists>q s1 s2. PointPool_obtain x y s = Inr (q, s1) \<and>
         PointPool_obtain x2 y2 (PointPool_recycle [q] s1) = Inr (q, s2) \<and>
         heap s2 q = Some \<lparr>point_x = x2, point_y = y2\<rparr> \<and>
         nextAddr s2 = nextAddr s1 \<and> pool s2 = []"
    by blast
qed

text \<open>The statement of C9 on the pool as the module creates it.\<close>

theorem obtain_reuses_recycled_point_witness:
  "PointPool_obtain 1 2 pointPool =
     Inr (0, \<lparr>pool = [], heap = [0 \<mapsto> \<lparr>point_x = 1, point_y = 2\<rparr>], nextAddr = 1\<rparr>) \<and>
   pool pointPool = [] \<and>
   (\<exists>q s1 s2. PointPool_obtain 1 2 pointPool = Inr (q, s1) \<and>
      PointPool_obtain 7 8 (PointPool_recycle [q] s1) = Inr (q, s2) \<and>
      heap s2 q = Some \<lparr>point_x = 7, point_y = 8\<rparr> \<and>
      nextAddr s2 = nextAddr s1 \<and> pool s2 = [])"
  using obtain_reuses_recycled_point
    [of 1 2 pointPool 0 "\<lparr>pool = [], heap = [0 \<mapsto> \<lparr>point_x = 1, point_y = 2\<rparr>], nextAddr = 1\<rparr>" 7 8]
  by (simp add: pointPool_def PointPool_obtain_def)

section \<open>Properties of the gesture handlers\<close>

lemma endsWith_single:
  "endsWith p [c] \<longleftrightarrow> p \<noteq> [] \<and> last p = c"
proof (cases p rule: rev_cases)
  case Nil
  then show ?thesis by (simp add: endsWith_def)
next
  case (snoc ys y)
  then show ?thesis by (simp add: endsWith_def)
qed

lemma crossKey_single:
  "crossKey p (Some [c]) = (if p \<noteq> [] \<and> last p = c then p else p @ [c])"
  by (simp add: crossKey_def endsWith_single)

lemma crossKey_differs:
  assumes "crossKey p k \<noteq> p"
  shows "p = [] \<or> k \<noteq> Some [last p]"
proof (rule ccontr)
  assume "\<not> (p = [] \<or> k \<noteq> Some [last p])"
  then have "p \<noteq> []" and "k = Some [last p]" by simp_all
  then have "crossKey p k = p" by (simp add: crossKey_single)
  with assms show False by simp
qed

lemma crossKey_run:
  "foldl crossKey p (map (\<lambda>c. Some [c]) cs) =
     (if p = [] then remdups_adj cs else butlast p @ remdups_adj (last p # cs))"
proof (induction cs arbitrary: p)
  case Nil
  then show ?case by simp
next
  case (Cons c cs)
  show ?case
    by (simp add: Cons.IH crossKey_single butlast_append)
qed

lemma moveOver_keyMove: "moveOver t m c = keyMove t m (Some [c])"
  by (simp add: moveOver_def keyMove_def)

lemma move_key:
  assumes "traceTyping settings" "\<not> isButtonEditMode props" "touchStart s \<noteq> None"
    and "pool_ok (trackerPool s)"
  shows "\<exists>s1. handleTouchMove settings props (keyMove t m k) s = Inr s1 \<and>
           swipePath s1 = crossKey (swipePath s) k \<and>
           touchStart s1 = touchStart s \<and> pool_ok (trackerPool s1)"
proof -
  define s1 where "s1 = (case k of
                           None \<Rightarrow> s
                         | Some keyVal \<Rightarrow>
                             (if keyVal \<noteq> [] \<and> \<not> endsWith (swipePath s) keyVal
                              then s\<lparr>swipePath := swipePath s @ keyVal\<rparr>
                              else s))"
  have path: "swipePath s1 = crossKey (swipePath s) k"
    by (auto simp: s1_def crossKey_def split: option.splits)
  have same: "touchStart s1 = touchStart s" "trackerPool s1 = trackerPool s"
    by (simp_all add: s1_def split: option.splits)
  from obtain_ok [OF assms(4), of "clientX t" "clientY t"]
  obtain p pl where ob: "PointPool_obtain (clientX t) (clientY t) (trackerPool s) = Inr (p, pl)"
    and ok: "pool_ok pl" by blast
  have "handleTouchMove settings props (keyMove t m k) s =
          (if m then Inr (s1\<lparr>tracePoints := tracePoints s1 @ [p], trackerPool := pl\<rparr>)
           else Inr s1)"
    using assms(1-3) ob same
    by (simp add: handleTouchMove_def keyMove_def js_index_def s1_def [symmetric])
  then show ?thesis
    using path same ok assms(4) by (cases m) simp_all
qed

lemma moves_fold:
  assumes "traceTyping settings" "\<not> isButtonEditMode props"
  shows "touchStart s \<noteq> None \<Longrightarrow> pool_ok (trackerPool s) \<Longrightarrow>
         \<exists>s'. touchMoves settings props (map (keyMove t m) ks) s = Inr s' \<and>
           swipePath s' = foldl crossKey (swipePath s) ks"
proof (induction ks arbitrary: s)
  case Nil
  then show ?case by simp
next
  case (Cons k ks)
  from move_key [OF assms Cons.prems, of t m k]
  obtain s1 where step: "handleTouchMove settings props (keyMove t m k) s = Inr s1"
    and path: "swipePath s1 = crossKey (swipePath s) k"
    and inv: "touchStart s1 = touchStart s" "pool_ok (trackerPool s1)" by blast
  from inv Cons.prems have "touchStart s1 \<noteq> None" by simp
  from Cons.IH [OF this inv(2)]
  obtain s' where run: "touchMoves settings props (map (keyMove t m) ks) s1 = Inr s'"
    and fin: "swipePath s' = foldl crossKey (swipePath s1) ks" by blast
  from step run fin path show ?case by simp
qed

lemma start_single_finger:
  assumes "traceTyping settings" "\<not> isButtonEditMode props" "\<not> isResizeMode props"
    and "touches e0 = [t0]" and "pool_ok (trackerPool s)"
  shows "\<exists>s3. handleTouchStart arith settings props e0 s = Inr s3 \<and>
           touchStart s3 \<noteq> None \<and> swipePath s3 = [] \<and> pool_ok (trackerPool s3)"
proof -
  define s1 where "s1 = s\<lparr>touchStart := Some (clientX t0, clientY t0), swipePath := []\<rparr>"
  define s2 where "s2 = (if length (tracePoints s1) > 0
                        then s1\<lparr>trackerPool := PointPool_recycle (tracePoints s1) (trackerPool s1),
                                tracePoints := []\<rparr>
                        else s1)"
  have ok2: "pool_ok (trackerPool s2)"
    using assms(5) by (simp add: s2_def s1_def recycle_ok)
  from obtain_ok [OF ok2, of "clientX t0" "clientY t0"]
  obtain p pl where ob: "PointPool_obtain (clientX t0) (clientY t0) (trackerPool s2) = Inr (p, pl)"
    and ok: "pool_ok pl" by blast
  define s3 where "s3 = s2\<lparr>tracePoints := tracePoints s2 @ [p], trackerPool := pl\<rparr>"
  have start: "handleTouchStart arith settings props e0 s = Inr s3"
  proof (cases "tracePoints s = []")
    case True
    then show ?thesis
      using assms(1-4) ob
      by (simp add: handleTouchStart_def Let_def s3_def s2_def s1_def)
  next
    case False
    then show ?thesis
      using assms(1-4) ob
      by (simp add: handleTouchStart_def Let_def s3_def s2_def s1_def)
  qed
  have "touchStart s3 \<noteq> None" "swipePath s3 = []" "pool_ok (trackerPool s3)"
    using ok by (simp_all add: s3_def s2_def s1_def)
  with start show ?thesis by blast
qed

text \<open>
  Claim C2, as amended. In a trace begun by a single-finger touch-start, the value of the key
  under the finger is appended to the crossing string unless it is empty or the string
  already ends with it, whatever the length of the value; a value is therefore appended only
  when it differs from the last character appended. Over keys of one character the crossing
  string is the key sequence with every run of equal consecutive keys collapsed to one key,
  and nothing more.
\<close>

theorem crossing_string_collapses_runs:
  assumes "traceTyping settings" "\<not> isButtonEditMode props" "\<not> isResizeMode props"
    and "touches e0 = [t0]" and "pool_ok (trackerPool s)"
  shows "crossingString arith settings props e0 (map (keyMove t m) ks) s =
           Some (foldl crossKey [] ks) \<and>
         (crossKey p k \<noteq> p \<longrightarrow> p = [] \<or> k \<noteq> Some [last p]) \<and>
         crossingString arith settings props e0 (map (moveOver t m) cs) s =
           Some (remdups_adj cs)"
proof -
  from start_single_finger [OF assms, of arith]
  obtain s3 where start: "handleTouchStart arith settings props e0 s = Inr s3"
    and s3: "touchStart s3 \<noteq> None" "swipePath s3 = []" "pool_ok (trackerPool s3)"
    by blast
  have general: "crossingString arith settings props e0 (map (keyMove t m) js) s =
           Some (foldl crossKey [] js)" for js
  proof -
    from moves_fold [OF assms(1,2) s3(1) s3(3), of t m js]
    obtain s' where "touchMoves settings props (map (keyMove t m) js) s3 = Inr s'"
      and "swipePath s' = foldl crossKey [] js"
      using s3(2) by auto
    with start show ?thesis
      by (simp add: crossingString_def)
  qed
  have eq: "map (moveOver t m) cs = map (keyMove t m) (map (\<lambda>c. Some [c]) cs)"
    by (simp add: moveOver_keyMove)
  have r: "foldl crossKey [] (map (\<lambda>c. Some [c]) cs) = remdups_adj cs"
    using crossKey_run [of "[]" cs] by simp
  have "crossingString arith settings props e0 (map (moveOver t m) cs) s =
           Some (remdups_adj cs)"
    unfolding eq using general [of "map (\<lambda>c. Some [c]) cs"] by (simp only: r)
  with general [of ks] crossKey_differs [of p k] show ?thesis by blast
qed

lemma idle_ok: "pool_ok (trackerPool idleTracker)"
  by (simp add: idleTracker_def pointPool_ok)

text \<open>
  The two key sequences of C2 on the tracker as mounted: \<open>h,h,e,e,l,l,l,o\<close> gives
  \<open>helo\<close> and \<open>h,e,l,l,o,l,l,o\<close> gives \<open>helolo\<close>. With a key of two code units: the keys
  \<open>l\<close>, \<open>a\<close>, \<open>la\<close>, no key, \<open>m\<close> give \<open>lam\<close>, since the string \<open>la\<close> already ends with
  the value \<open>la\<close>.
\<close>

theorem crossing_string_collapses_runs_witness:
  "crossingString exactArith tracingSettings hostProps (fingerAt (touchAt 100 100))
      (map (moveOver (touchAt 100 100) True) ''hheelllo'') idleTracker = Some ''helo'' \<and>
   crossingString exactArith tracingSettings hostProps (fingerAt (touchAt 100 100))
      (map (moveOver (touchAt 100 100) True) ''hellollo'') idleTracker = Some ''helolo'' \<and>
   crossingString exactArith tracingSettings hostProps (fingerAt (touchAt 100 100))
      (map (keyMove (touchAt 100 100) True) [Some ''l'', Some ''a'', Some ''la'', None, Some ''m''])
      idleTracker = Some ''lam''"
proof -
  have h: "traceTyping tracingSettings" "\<not> isButtonEditMode hostProps"
    "\<not> isResizeMode hostProps" "touches (fingerAt (touchAt 100 100)) = [touchAt 100 100]"
    by (simp_all add: tracingSettings_def hostProps_def fingerAt_def)
  from crossing_string_collapses_runs [OF h idle_ok,
      where arith = exactArith and t = "touchAt 100 100" and m = True and cs = "''hheelllo''"
        and ks = "[Some ''l'', Some ''a'', Some ''la'', None, Some ''m'']"]
    crossing_string_collapses_runs [OF h idle_ok,
      where arith = exactArith and t = "touchAt 100 100" and m = True and cs = "''hellollo''"]
  show ?thesis by (simp add: crossKey_def endsWith_def)
qed

text \<open>
  Claim C2 as stated gives \<open>heloolo\<close> for the key sequence \<open>h,e,l,l,o,l,l,o\<close>; the
  handlers do not produce that string. And not only consecutive duplicates are suppressed:
  after a key with the two code units \<open>la\<close>, the different key \<open>a\<close> is dropped.
\<close>

theorem revisited_key_counterexample:
  "crossingString exactArith tracingSettings hostProps (fingerAt (touchAt 100 100))
      (map (moveOver (touchAt 100 100) True) ''hellollo'') idleTracker \<noteq> Some ''heloolo'' \<and>
   crossingString exactArith tracingSettings hostProps (fingerAt (touchAt 100 100))
      (map (keyMove (touchAt 100 100) True) [Some ''la'', Some ''a'']) idleTracker = Some ''la''"
  by (simp add: crossingString_def handleTouchStart_def handleTouchMove_def moveOver_def
      keyMove_def fingerAt_def touchAt_def tracingSettings_def hostProps_def idleTracker_def
      pointPool_def PointPool_obtain_def js_index_def endsWith_def Let_def)

section \<open>Properties of the decoder\<close>

lemma seen_fold:
  "distinct acc \<Longrightarrow>
   distinct (foldl (\<lambda>seen c. if c \<in> set seen then seen else seen @ [c]) acc xs) \<and>
   set (foldl (\<lambda>seen c. if c \<in> set seen then seen else seen @ [c]) acc xs) = set acc \<union> set xs"
  by (induction xs arbitrary: acc) auto

lemma seen_fold_keeps_distinct:
  "distinct (acc @ xs) \<Longrightarrow>
   foldl (\<lambda>seen c. if c \<in> set seen then seen else seen @ [c]) acc xs = acc @ xs"
  by (induction xs arbitrary: acc) auto

lemma uniqueChars_distinct: "distinct (uniqueChars s)"
  using seen_fold [of "[]" s] by (simp add: uniqueChars_def)

lemma uniqueChars_set: "set (uniqueChars s) = set s"
  using seen_fold [of "[]" s] by (simp add: uniqueChars_def)

lemma uniqueChars_fixed: "uniqueChars s = s \<longleftrightarrow> distinct s"
proof
  assume "uniqueChars s = s"
  then show "distinct s" using uniqueChars_distinct [of s] by simp
next
  assume "distinct s"
  then show "uniqueChars s = s"
    using seen_fold_keeps_distinct [of "[]" s] by (simp add: uniqueChars_def)
qed

lemma decipherSwipe_returns: "\<exists>w. decipherSwipe genAI path ctx lc = Inr w"
  by (auto simp: decipherSwipe_def split: option.splits sum.splits)

lemma decipherSwipe_on_throw:
  assumes "remoteCall genAI path ctx lc = Some (Inl err)"
  shows "decipherSwipe genAI path ctx lc = Inr (uniqueChars path)"
  using assms
  by (auto simp: remoteCall_def decipherSwipe_def decipherSwipe_try_def Let_def
      split: option.splits if_splits)

lemma split_on_first:
  "split_on sep s \<noteq> [] \<and> hd (split_on sep s) = takeWhile (\<lambda>c. c \<noteq> sep) s"
  by (induction s) (auto split: list.splits)

lemma first_token: "or_empty (js_index (split_on sep s) 0) = takeWhile (\<lambda>c. c \<noteq> sep) s"
proof -
  from split_on_first [of sep s] obtain w ws where "split_on sep s = w # ws"
    and "w = takeWhile (\<lambda>c. c \<noteq> sep) s"
    by (cases "split_on sep s") auto
  then show ?thesis by (simp add: or_empty_def js_index_def)
qed

lemma decipherSwipe_on_reply:
  assumes "remoteCall genAI path ctx lc = Some (Inr reply)"
  shows "decipherSwipe genAI path ctx lc =
           Inr (case reply of None \<Rightarrow> []
                | Some txt \<Rightarrow> takeWhile (\<lambda>c. c \<noteq> CHR '' '') (trim txt))"
  using assms
proof -
  have none: "or_empty None = []" by (simp add: or_empty_def)
  show ?thesis
    using assms
    by (auto simp: remoteCall_def decipherSwipe_def decipherSwipe_try_def Let_def first_token
        none split: option.splits if_splits)
qed

text \<open>
  Claim C3. \<open>decipherSwipe\<close> returns a string for every input and never throws; when its
  remote call throws, the string is the crossing string with its repeated characters removed,
  each character kept where it first occurs, which depends on the crossing string alone;
  \<open>hello\<close> gives \<open>helo\<close>.
\<close>

theorem decode_failure_falls_back:
  "(\<exists>w. decipherSwipe genAI path ctx lc = Inr w) \<and>
   (remoteCall genAI path ctx lc = Some (Inl err) \<longrightarrow>
      decipherSwipe genAI path ctx lc = Inr (uniqueChars path)) \<and>
   distinct (uniqueChars path) \<and> set (uniqueChars path) = set path \<and>
   uniqueChars ''hello'' = ''helo''"
proof -
  have "uniqueChars ''hello'' = ''helo''"
    by (simp add: uniqueChars_def)
  then show ?thesis
    using decipherSwipe_returns [of genAI path ctx lc] decipherSwipe_on_throw [of genAI path ctx lc err]
    by (simp add: uniqueChars_distinct uniqueChars_set)
qed

text \<open>
  C3 with a client that throws, on the crossing string \<open>hello\<close>.
\<close>

theorem decode_failure_falls_back_witness:
  "remoteCall (Some failingClient) ''hello'' ''the '' ''EN'' = Some (Inl RemoteError) \<and>
   decipherSwipe (Some failingClient) ''hello'' ''the '' ''EN'' = Inr ''helo''"
proof -
  have call: "remoteCall (Some failingClient) ''hello'' ''the '' ''EN'' = Some (Inl RemoteError)"
    by (simp add: remoteCall_def failingClient_def trim_def trimStart_def trimEnd_def
        isWhiteSpace_def)
  from decode_failure_falls_back [of "Some failingClient" "''hello''" "''the ''" "''EN''" RemoteError]
  have "decipherSwipe (Some failingClient) ''hello'' ''the '' ''EN'' = Inr (uniqueChars ''hello'')"
    and "uniqueChars ''hello'' = ''helo''"
    using call by simp_all
  with call show ?thesis by simp
qed

text \<open>
  Claim C4, as amended. When the remote call throws, \<open>decipherSwipe\<close> returns the crossing
  string with its repeated characters removed; that is the crossing string itself exactly
  when no character occurs twice in it.
\<close>

theorem decode_failure_keeps_input_iff_distinct:
  assumes "remoteCall genAI path ctx lc = Some (Inl err)"
  shows "decipherSwipe genAI path ctx lc = Inr (uniqueChars path) \<and>
         (decipherSwipe genAI path ctx lc = Inr path \<longleftrightarrow> distinct path)"
  using decipherSwipe_on_throw [OF assms] by (simp add: uniqueChars_fixed)

text \<open>
  The amended C4 on \<open>helo\<close>, which has no repeated character and is returned as it is.
\<close>

theorem decode_failure_keeps_input_iff_distinct_witness:
  "remoteCall (Some failingClient) ''helo'' [] ''EN'' = Some (Inl RemoteError) \<and>
   distinct ''helo'' \<and> decipherSwipe (Some failingClient) ''helo'' [] ''EN'' = Inr ''helo''"
proof -
  have call: "remoteCall (Some failingClient) ''helo'' [] ''EN'' = Some (Inl RemoteError)"
    by (simp add: remoteCall_def failingClient_def trim_def trimStart_def trimEnd_def
        isWhiteSpace_def)
  have d: "distinct ''helo''" by simp
  from decode_failure_keeps_input_iff_distinct [OF call] d
  have "decipherSwipe (Some failingClient) ''helo'' [] ''EN'' = Inr ''helo''" by blast
  with call d show ?thesis by blast
qed

text \<open>
  Claim C4 as stated fails on the crossing string \<open>helolo\<close>: the remote call throws and the
  result is \<open>helo\<close>, not the input.
\<close>

theorem decode_failure_changes_input_counterexample:
  "remoteCall (Some failingClient) ''helolo'' [] ''EN'' = Some (Inl RemoteError) \<and>
   decipherSwipe (Some failingClient) ''helolo'' [] ''EN'' = Inr ''helo'' \<and>
   decipherSwipe (Some failingClient) ''helolo'' [] ''EN'' \<noteq> Inr ''helolo''"
  by (simp add: remoteCall_def decipherSwipe_def decipherSwipe_try_def failingClient_def
      trim_def trimStart_def trimEnd_def isWhiteSpace_def uniqueChars_def)

section \<open>Properties of the host handlers\<close>

lemma endsWith_space: "endsWith p '' '' \<longleftrightarrow> p \<noteq> [] \<and> last p = CHR '' ''"
proof (cases p rule: rev_cases)
  case Nil
  then show ?thesis by (simp add: endsWith_def)
next
  case (snoc ys y)
  then show ?thesis by (simp add: endsWith_def)
qed

lemma startsWith_space: "w \<noteq> [] \<Longrightarrow> startsWith w '' '' \<longleftrightarrow> hd w = CHR '' ''"
  by (cases w) (simp_all add: startsWith_def)

lemma appendWord_text:
  assumes "w \<noteq> []"
  shows "text_buffer (appendWord settings w st) =
           text_buffer st @
           (if text_buffer st \<noteq> [] \<and> last (text_buffer st) \<noteq> CHR '' '' \<and> hd w \<noteq> CHR '' ''
            then '' '' else []) @ w @ '' ''"
  using assms by (auto simp: appendWord_def Let_def endsWith_space startsWith_space)

lemma appendWord_learned:
  "learned (appendWord settings w st) =
     (if \<not> incognitoMode settings \<and> \<not> encryptKeystrokes settings
      then learned st @ [(w, False, lang_code (language settings))] else learned st)"
  by (simp add: appendWord_def Let_def)

lemma appendWord_decodeCalls: "decodeCalls (appendWord settings w st) = decodeCalls st"
  by (simp add: appendWord_def Let_def)

lemma traceContext_loading [simp]:
  "traceContext settings (st\<lparr>isLoading := b\<rparr>) = traceContext settings st"
  by (simp add: traceContext_def)

lemma handleTraceEnd_text:
  assumes "path \<noteq> []"
    and "decipherSwipe genAI path (traceContext settings st) (lang_code (language settings)) = Inr w"
  shows "text_buffer (handleTraceEnd settings genAI path st) =
           (if w = [] then text_buffer st
            else text_buffer (appendWord settings w st))"
  using assms by (simp add: handleTraceEnd_def Let_def appendWord_def)

lemma handleTraceEnd_learned:
  assumes "decipherSwipe genAI path (traceContext settings st) (lang_code (language settings)) = Inr w"
  shows "learned (handleTraceEnd settings genAI path st) =
           (if path = [] \<or> w = [] \<or> incognitoMode settings \<or> encryptKeystrokes settings
            then learned st
            else learned st @ [(w, False, lang_code (language settings))])"
  using assms by (simp add: handleTraceEnd_def Let_def appendWord_def)

lemma handleTraceEnd_decodeCalls:
  "decodeCalls (handleTraceEnd settings genAI path st) =
     (if path = [] then decodeCalls st
      else decodeCalls st @ [(path, traceContext settings st, lang_code (language settings))])"
  by (simp add: handleTraceEnd_def Let_def appendWord_def split: sum.splits)

text \<open>
  Claim C5, as amended. When the remote call returns a text, the decoded word is the part of
  the trimmed text before its first space character. A non-empty decoded word is appended to
  the text buffer with a separating space iff the buffer is non-empty, does not end in a
  space character and the word does not start with one, and a space always follows the word.
\<close>

theorem decoded_word_appended_with_spacing:
  "(remoteCall genAI path ctx lc = Some (Inr (Some txt)) \<longrightarrow>
      decipherSwipe genAI path ctx lc = Inr (takeWhile (\<lambda>c. c \<noteq> CHR '' '') (trim txt))) \<and>
   (path \<noteq> [] \<and> w \<noteq> [] \<and>
    decipherSwipe genAI path (traceContext settings st) (lang_code (language settings)) = Inr w
    \<longrightarrow> text_buffer (handleTraceEnd settings genAI path st) =
          text_buffer st @
          (if text_buffer st \<noteq> [] \<and> last (text_buffer st) \<noteq> CHR '' '' \<and> hd w \<noteq> CHR '' ''
           then '' '' else []) @ w @ '' '')"
proof (intro conjI impI)
  assume "remoteCall genAI path ctx lc = Some (Inr (Some txt))"
  from decipherSwipe_on_reply [OF this]
  show "decipherSwipe genAI path ctx lc = Inr (takeWhile (\<lambda>c. c \<noteq> CHR '' '') (trim txt))"
    by simp
next
  assume a: "path \<noteq> [] \<and> w \<noteq> [] \<and>
    decipherSwipe genAI path (traceContext settings st) (lang_code (language settings)) = Inr w"
  then have "text_buffer (handleTraceEnd settings genAI path st) =
      text_buffer (appendWord settings w st)"
    using handleTraceEnd_text [of path genAI settings st w] by simp
  also have "\<dots> = text_buffer st @
          (if text_buffer st \<noteq> [] \<and> last (text_buffer st) \<noteq> CHR '' '' \<and> hd w \<noteq> CHR '' ''
           then '' '' else []) @ w @ '' ''"
    using a appendWord_text [of w settings st] by simp
  finally show "text_buffer (handleTraceEnd settings genAI path st) =
          text_buffer st @
          (if text_buffer st \<noteq> [] \<and> last (text_buffer st) \<noteq> CHR '' '' \<and> hd w \<noteq> CHR '' ''
           then '' '' else []) @ w @ '' ''" .
qed

lemma reply_hello_world:
  "remoteCall (Some (replyingClient '' hello world'')) ''helo'' ctx ''EN'' =
     Some (Inr (Some '' hello world''))"
  by (simp add: remoteCall_def replyingClient_def trim_def trimStart_def trimEnd_def
      isWhiteSpace_def)

lemma trim_hello_world: "takeWhile (\<lambda>c. c \<noteq> CHR '' '') (trim '' hello world'') = ''hello''"
  by (simp add: trim_def trimStart_def trimEnd_def isWhiteSpace_def)

text \<open>
  The amended C5 with the response \<open>" hello world"\<close>: the word is \<open>hello\<close>; the buffer
  \<open>so\<close> receives \<open>" hello "\<close>, while the buffer \<open>"so "\<close> and the empty buffer receive
  exactly \<open>"hello "\<close>.
\<close>

theorem decoded_word_appended_with_spacing_witness:
  "decipherSwipe (Some (replyingClient '' hello world'')) ''helo'' ''so'' ''EN'' = Inr ''hello'' \<and>
   text_buffer (handleTraceEnd tracingSettings (Some (replyingClient '' hello world'')) ''helo''
      (appWithText ''so'')) = ''so hello '' \<and>
   text_buffer (handleTraceEnd tracingSettings (Some (replyingClient '' hello world'')) ''helo''
      (appWithText ''so '')) = ''so hello '' \<and>
   text_buffer (handleTraceEnd tracingSettings (Some (replyingClient '' hello world'')) ''helo''
      (appWithText [])) = ''hello ''"
proof -
  have dec: "decipherSwipe (Some (replyingClient '' hello world'')) ''helo'' ctx ''EN'' = Inr ''hello''"
    for ctx
    using decoded_word_appended_with_spacing
      [of "Some (replyingClient '' hello world'')" "''helo''" ctx "''EN''" "'' hello world''"]
      reply_hello_world [of ctx]
    by (simp add: trim_hello_world)
  have ctx: "traceContext tracingSettings (appWithText t) = t"
    "lang_code (language tracingSettings) = ''EN''" "text_buffer (appWithText t) = t" for t
    by (simp_all add: traceContext_def tracingSettings_def appWithText_def lang_code_def)
  have app: "text_buffer (handleTraceEnd tracingSettings (Some (replyingClient '' hello world''))
      ''helo'' (appWithText t)) =
      t @ (if t \<noteq> [] \<and> last t \<noteq> CHR '' '' then '' '' else []) @ ''hello ''" for t
    using decoded_word_appended_with_spacing
      [of "Some (replyingClient '' hello world'')" "''helo''" "[]" "''EN''" "[]" "''hello''"
          tracingSettings "appWithText t"]
      dec [of t]
    by (simp add: ctx)
  show ?thesis
    using dec [of "''so''"] app [of "''so''"] app [of "''so ''"] app [of "[]"] by simp
qed

text \<open>
  Claim C5 as stated fails twice. A buffer that ends in a line feed, which is white space,
  still receives a separating space before \<open>hello\<close>. A response whose two words are separated
  by a tab is taken whole, not cut at the tab.
\<close>

theorem space_after_newline_counterexample:
  "isWhiteSpace (last [CHR ''a'', CHR 0x0A]) \<and>
   text_buffer (handleTraceEnd tracingSettings (Some (replyingClient ''hello'')) ''helo''
      (appWithText [CHR ''a'', CHR 0x0A])) = [CHR ''a'', CHR 0x0A] @ '' hello '' \<and>
   isWhiteSpace (CHR 0x09) \<and>
   text_buffer (handleTraceEnd tracingSettings
      (Some (replyingClient (''hello'' @ [CHR 0x09] @ ''world''))) ''helo'' (appWithText [])) =
     ''hello'' @ [CHR 0x09] @ ''world ''"
  by (simp add: handleTraceEnd_def appendWord_def traceContext_def decipherSwipe_def
      decipherSwipe_try_def replyingClient_def tracingSettings_def appWithText_def lang_code_def
      trim_def trimStart_def trimEnd_def isWhiteSpace_def or_empty_def js_index_def
      endsWith_def startsWith_def Let_def)

text \<open>
  Claim C6. With incognito mode or keystroke encryption on, the context handed to the decoder
  is empty; two runs of the trace-end handler that differ only in the text buffer make the
  same decoder call, with the empty context; and the frequency learner is not called.
\<close>

theorem private_modes_hide_text:
  assumes "incognitoMode settings \<or> encryptKeystrokes settings"
  shows "traceContext settings (st\<lparr>text_buffer := t1\<rparr>) = [] \<and>
         decodeCalls (handleTraceEnd settings genAI path (st\<lparr>text_buffer := t1\<rparr>)) =
           decodeCalls (handleTraceEnd settings genAI path (st\<lparr>text_buffer := t2\<rparr>)) \<and>
         (path \<noteq> [] \<longrightarrow>
            decodeCalls (handleTraceEnd settings genAI path (st\<lparr>text_buffer := t1\<rparr>)) =
              decodeCalls st @ [(path, [], lang_code (language settings))]) \<and>
         learned (handleTraceEnd settings genAI path (st\<lparr>text_buffer := t1\<rparr>)) = learned st"
proof -
  have ctx: "traceContext settings (st\<lparr>text_buffer := t\<rparr>) = []" for t
    using assms by (auto simp: traceContext_def)
  have calls: "decodeCalls (handleTraceEnd settings genAI path (st\<lparr>text_buffer := t\<rparr>)) =
     (if path = [] then decodeCalls st
      else decodeCalls st @ [(path, [], lang_code (language settings))])" for t
    by (simp add: handleTraceEnd_decodeCalls ctx)
  obtain w where
    "decipherSwipe genAI path (traceContext settings (st\<lparr>text_buffer := t1\<rparr>))
       (lang_code (language settings)) = Inr w"
    using decipherSwipe_returns by blast
  from handleTraceEnd_learned [OF this]
  have "learned (handleTraceEnd settings genAI path (st\<lparr>text_buffer := t1\<rparr>)) = learned st"
    using assms by auto
  then show ?thesis
    using ctx [of t1] calls [of t1] calls [of t2] by simp
qed

text \<open>
  C6 in incognito mode, for the text buffers \<open>my secret\<close> and \<open>other\<close>.
\<close>

theorem private_modes_hide_text_witness:
  "decodeCalls (handleTraceEnd (tracingSettings\<lparr>incognitoMode := True\<rparr>)
       (Some (replyingClient ''hello'')) ''helo'' ((appWithText [])\<lparr>text_buffer := ''my secret''\<rparr>)) =
   decodeCalls (handleTraceEnd (tracingSettings\<lparr>incognitoMode := True\<rparr>)
       (Some (replyingClient ''hello'')) ''helo'' ((appWithText [])\<lparr>text_buffer := ''other''\<rparr>)) \<and>
   decodeCalls (handleTraceEnd (tracingSettings\<lparr>incognitoMode := True\<rparr>)
       (Some (replyingClient ''hello'')) ''helo'' ((appWithText [])\<lparr>text_buffer := ''my secret''\<rparr>)) =
     [(''helo'', [], ''EN'')] \<and>
   learned (handleTraceEnd (tracingSettings\<lparr>incognitoMode := True\<rparr>)
       (Some (replyingClient ''hello'')) ''helo'' ((appWithText [])\<lparr>text_buffer := ''my secret''\<rparr>)) = []"
  using private_modes_hide_text
    [where settings = "tracingSettings\<lparr>incognitoMode := True\<rparr>" and st = "appWithText []"
       and ?t1.0 = "''my secret''" and genAI = "Some (replyingClient ''hello'')"
       and path = "''helo''" and ?t2.0 = "''other''"]
  by (auto simp: tracingSettings_def appWithText_def lang_code_def)

text \<open>
  Claim C10. \<open>decipherSwipe\<close> returns the empty string when no client is configured and
  when the response of its remote call has no text; and whenever it returns the empty string,
  the trace-end handler leaves the text buffer as it was and does not call the frequency
  learner.
\<close>

theorem empty_decode_leaves_buffer:
  "(genAI = None \<longrightarrow> decipherSwipe genAI path ctx lc = Inr []) \<and>
   (remoteCall genAI path ctx lc = Some (Inr None) \<longrightarrow> decipherSwipe genAI path ctx lc = Inr []) \<and>
   (decipherSwipe genAI path (traceContext settings st) (lang_code (language settings)) = Inr []
    \<longrightarrow> text_buffer (handleTraceEnd settings genAI path st) = text_buffer st \<and>
        learned (handleTraceEnd settings genAI path st) = learned st)"
proof (intro conjI impI)
  assume "genAI = None"
  then show "decipherSwipe genAI path ctx lc = Inr []"
    by (simp add: decipherSwipe_def)
next
  assume "remoteCall genAI path ctx lc = Some (Inr None)"
  from decipherSwipe_on_reply [OF this]
  show "decipherSwipe genAI path ctx lc = Inr []" by simp
next
  assume e: "decipherSwipe genAI path (traceContext settings st) (lang_code (language settings)) = Inr []"
  show "text_buffer (handleTraceEnd settings genAI path st) = text_buffer st"
  proof (cases "path = []")
    case True
    then show ?thesis by (simp add: handleTraceEnd_def)
  next
    case False
    from handleTraceEnd_text [OF False e] show ?thesis by simp
  qed
  from handleTraceEnd_learned [OF e]
  show "learned (handleTraceEnd settings genAI path st) = learned st" by simp
qed

text \<open>
  C10 without a client, and with a client whose response has no text.
\<close>

theorem empty_decode_leaves_buffer_witness:
  "decipherSwipe None ''helo'' ''so far'' ''EN'' = Inr [] \<and>
   text_buffer (handleTraceEnd tracingSettings None ''helo'' (appWithText ''so far'')) = ''so far'' \<and>
   learned (handleTraceEnd tracingSettings None ''helo'' (appWithText ''so far'')) = [] \<and>
   remoteCall (Some silentClient) ''helo'' ''so far'' ''EN'' = Some (Inr None) \<and>
   text_buffer (handleTraceEnd tracingSettings (Some silentClient) ''helo''
      (appWithText ''so far'')) = ''so far''"
proof -
  have ctx: "traceContext tracingSettings (appWithText ''so far'') = ''so far''"
    "lang_code (language tracingSettings) = ''EN''"
    "text_buffer (appWithText ''so far'') = ''so far''" "learned (appWithText ''so far'') = []"
    by (simp_all add: traceContext_def tracingSettings_def appWithText_def lang_code_def)
  have call: "remoteCall (Some silentClient) ''helo'' ''so far'' ''EN'' = Some (Inr None)"
    by (simp add: remoteCall_def silentClient_def trim_def trimStart_def trimEnd_def
        isWhiteSpace_def)
  have a: "decipherSwipe None ''helo'' ''so far'' ''EN'' = Inr [] \<and>
     text_buffer (handleTraceEnd tracingSettings None ''helo'' (appWithText ''so far'')) = ''so far'' \<and>
     learned (handleTraceEnd tracingSettings None ''helo'' (appWithText ''so far'')) = []"
    using empty_decode_leaves_buffer
      [of None "''helo''" "''so far''" "''EN''" tracingSettings "appWithText ''so far''"]
    by (simp add: ctx)
  have b: "text_buffer (handleTraceEnd tracingSettings (Some silentClient) ''helo''
      (appWithText ''so far'')) = ''so far''"
    using empty_decode_leaves_buffer
      [of "Some silentClient" "''helo''" "''so far''" "''EN''" tracingSettings "appWithText ''so far''"]
      call
    by (simp add: ctx)
  from a b call show ?thesis by simp
qed

lemma scan_absent:
  "c \<notin> set ys \<Longrightarrow> lastIndexOf_scan ys c i found = found"
  by (induction ys arbitrary: i found) auto

lemma scan_last_occurrence:
  "c \<notin> set ys \<Longrightarrow> lastIndexOf_scan (xs @ c # ys) c i found = int (i + length xs)"
  by (induction xs arbitrary: i found) (auto simp: scan_absent)

lemma lastIndexOf_last_occurrence:
  "c \<notin> set ys \<Longrightarrow> lastIndexOf (xs @ c # ys) c = int (length xs)"
  using scan_last_occurrence [of c ys xs 0 "- 1"] by (simp add: lastIndexOf_def)

lemma trimEnd_strips:
  assumes "\<forall>c\<in>set ws. isWhiteSpace c" and "xs \<noteq> []" and "\<not> isWhiteSpace (last xs)"
  shows "trimEnd (xs @ ws) = xs"
proof -
  have "dropWhile isWhiteSpace (rev ws @ rev xs) = dropWhile isWhiteSpace (rev xs)"
    using assms(1) by (simp add: dropWhile_append)
  moreover have "dropWhile isWhiteSpace (rev xs) = rev xs"
    using assms(2,3) by (cases xs rule: rev_cases) simp_all
  ultimately show ?thesis by (simp add: trimEnd_def)
qed

lemma lastIndexOf_absent: "c \<notin> set s \<Longrightarrow> lastIndexOf s c = - 1"
  by (simp add: lastIndexOf_def scan_absent)

text \<open>
  Claim C7, as amended. The left-swipe handler drops the white space at the end of the buffer
  and cuts the rest after its last space character: a last word that follows a space
  character is removed and that space is kept as the end of the buffer; a buffer that holds
  no space character before its last word becomes empty.
\<close>

theorem swipe_left_cuts_after_last_space:
  "(w \<noteq> [] \<and> CHR '' '' \<notin> set w \<and> \<not> isWhiteSpace (last w) \<and> (\<forall>c\<in>set ws. isWhiteSpace c) \<and>
    text_buffer st = pre @ '' '' @ w @ ws
    \<longrightarrow> text_buffer (handleSwipeLeft st) = pre @ '' '') \<and>
   (CHR '' '' \<notin> set (trimEnd (text_buffer st)) \<longrightarrow> text_buffer (handleSwipeLeft st) = [])"
proof (intro conjI impI)
  assume a: "w \<noteq> [] \<and> CHR '' '' \<notin> set w \<and> \<not> isWhiteSpace (last w) \<and>
    (\<forall>c\<in>set ws. isWhiteSpace c) \<and> text_buffer st = pre @ '' '' @ w @ ws"
  then have "last (pre @ '' '' @ w) = last w" by simp
  with a have "\<not> isWhiteSpace (last (pre @ '' '' @ w))" by simp
  moreover have "\<forall>c\<in>set ws. isWhiteSpace c" using a by blast
  ultimately have "trimEnd ((pre @ '' '' @ w) @ ws) = pre @ '' '' @ w"
    by (intro trimEnd_strips) simp_all
  then have tr: "trimEnd (text_buffer st) = pre @ CHR '' '' # w"
    using a by simp
  have idx: "lastIndexOf (pre @ CHR '' '' # w) CHR '' '' = int (length pre)"
    using a by (intro lastIndexOf_last_occurrence) simp
  show "text_buffer (handleSwipeLeft st) = pre @ '' ''"
    by (simp add: handleSwipeLeft_def Let_def tr idx substring0_def)
next
  assume "CHR '' '' \<notin> set (trimEnd (text_buffer st))"
  then have "lastIndexOf (trimEnd (text_buffer st)) CHR '' '' = - 1"
    by (rule lastIndexOf_absent)
  then show "text_buffer (handleSwipeLeft st) = []"
    by (simp add: handleSwipeLeft_def Let_def)
qed

text \<open>
  The amended C7: \<open>"the quick fox "\<close> becomes \<open>"the quick "\<close>, and \<open>"fox "\<close> becomes empty.
\<close>

theorem swipe_left_cuts_after_last_space_witness:
  "text_buffer (handleSwipeLeft (appWithText ''the quick fox '')) = ''the quick '' \<and>
   text_buffer (handleSwipeLeft (appWithText ''fox '')) = []"
proof -
  have w: "''fox'' \<noteq> [] \<and> CHR '' '' \<notin> set ''fox'' \<and> \<not> isWhiteSpace (last ''fox'') \<and>
      (\<forall>c\<in>set '' ''. isWhiteSpace c) \<and>
      text_buffer (appWithText ''the quick fox '') = ''the quick'' @ '' '' @ ''fox'' @ '' ''"
    by (simp add: isWhiteSpace_def appWithText_def)
  have n: "CHR '' '' \<notin> set (trimEnd (text_buffer (appWithText ''fox '')))"
    by (simp add: trimEnd_def isWhiteSpace_def appWithText_def)
  from swipe_left_cuts_after_last_space
         [of "''fox''" "'' ''" "appWithText ''the quick fox ''" "''the quick''"] w
  have a: "text_buffer (handleSwipeLeft (appWithText ''the quick fox '')) = ''the quick ''"
    by simp
  from swipe_left_cuts_after_last_space [of "[]" "[]" "appWithText ''fox ''" "[]"] n
  have b: "text_buffer (handleSwipeLeft (appWithText ''fox '')) = []"
    by simp
  from a b show ?thesis by simp
qed

text \<open>
  Claim C7 as stated fails on a buffer of two words separated by a line feed: the last
  white-space-delimited word is \<open>two\<close>, but the handler removes both words and leaves no
  trailing space.
\<close>

theorem swipe_left_newline_counterexample:
  "isWhiteSpace (CHR 0x0A) \<and>
   text_buffer (handleSwipeLeft (appWithText (''one'' @ [CHR 0x0A] @ ''two''))) = []"
  by (simp add: handleSwipeLeft_def appWithText_def trimEnd_def isWhiteSpace_def
      lastIndexOf_def Let_def)

section \<open>Classification at touch-end\<close>

lemma num_gt_max: "num_gt (num_max a b) c \<longleftrightarrow> num_gt a c \<or> num_gt b c"
  by (cases a; cases b; cases c) (auto simp: num_max_def)

lemma num_gt_asym: "num_gt a b \<Longrightarrow> \<not> num_gt b a"
  by (cases a; cases b) auto

lemma hostProps_callbacks:
  "onSwipeLeft hostProps" "onSwipeRight hostProps" "onSwipeDown hostProps" "onTraceEnd hostProps"
  by (simp_all add: hostProps_def)

lemma tracingFrom100_fields:
  "touchStart (tracingFrom100 p) = Some (100, 100)" "swipePath (tracingFrom100 p) = p"
  by (simp_all add: tracingFrom100_def)

lemma fingerAt_changed: "changedTouches (fingerAt t) = t # []"
  by (simp add: fingerAt_def)

lemma swipe_callbacks_decodeCalls:
  "decodeCalls (handleSwipeLeft st) = decodeCalls st"
  "decodeCalls (handleSwipeRight st) = decodeCalls st"
  "decodeCalls (handleSwipeDown st) = decodeCalls st"
  by (simp_all add: handleSwipeLeft_def handleSwipeRight_def handleSwipeDown_def Let_def)

text \<open>
  Claim C1. At the touch-end of a trace (trace typing on, a recorded start point, the host's
  callbacks passed), with \<open>dx\<close> and \<open>dy\<close> the differences that the handler computes in
  double arithmetic from the start to the lifted touch, whatever the rounding:
  if \<open>max(|dx|, |dy|) > 50\<close> the trace-end callback does not fire and the host makes no decoder
  call, and the right-swipe callback fires iff \<open>|dx| > |dy|\<close> and \<open>dx > 0\<close>, the left-swipe
  one iff \<open>|dx| > |dy|\<close> and \<open>dx < 0\<close>, the down-swipe one iff \<open>|dx| \<le> |dy|\<close> and
  \<open>dy > 0\<close>; otherwise a crossing string longer than 2 is handed to the host, which calls the
  decoder with it, and nothing else fires; otherwise nothing fires and the host state is
  untouched.
\<close>

theorem touch_end_classifies_gesture:
  assumes "traceTyping settings" and "touchStart s = Some (sx, sy)"
    and "changedTouches e = t # ts"
    and "onSwipeLeft props" "onSwipeRight props" "onSwipeDown props" "onTraceEnd props"
    and "dx = double_minus arith (clientX t) sx" and "dy = double_minus arith (clientY t) sy"
  shows "\<exists>fired s'. handleTouchEnd arith settings props e s = Inr (fired, s') \<and>
           (num_gt (num_max (num_abs dx) (num_abs dy)) (Finite 50) \<longrightarrow>
              (\<forall>p. TraceEnd p \<notin> set fired) \<and>
              decodeCalls (hostCallbacks settings genAI fired st) = decodeCalls st \<and>
              (SwipeRight \<in> set fired \<longleftrightarrow>
                 num_gt (num_abs dx) (num_abs dy) \<and> num_gt dx (Finite 0)) \<and>
              (SwipeLeft \<in> set fired \<longleftrightarrow>
                 num_gt (num_abs dx) (num_abs dy) \<and> num_gt (Finite 0) dx) \<and>
              (SwipeDown \<in> set fired \<longleftrightarrow>
                 \<not> num_gt (num_abs dx) (num_abs dy) \<and> num_gt dy (Finite 0))) \<and>
           (\<not> num_gt (num_max (num_abs dx) (num_abs dy)) (Finite 50) \<and>
            2 < length (swipePath s) \<longrightarrow>
              fired = [TraceEnd (swipePath s)] \<and>
              decodeCalls (hostCallbacks settings genAI fired st) =
                decodeCalls st @
                [(swipePath s, traceContext settings st, lang_code (language settings))]) \<and>
           (\<not> num_gt (num_max (num_abs dx) (num_abs dy)) (Finite 50) \<and>
            length (swipePath s) \<le> 2 \<longrightarrow>
              fired = [] \<and> hostCallbacks settings genAI fired st = st)"
proof -
  define far where "far = num_gt (num_max (num_abs dx) (num_abs dy)) (Finite 50)"
  define wide where "wide = num_gt (num_abs dx) (num_abs dy)"
  define fired where "fired =
     (if far then
        (if wide then
           (if num_gt dx (Finite 0) then [SwipeRight]
            else if num_gt (Finite 0) dx then [SwipeLeft] else [])
         else (if num_gt dy (Finite 0) then [SwipeDown] else []))
      else if length (swipePath s) > 2 then [TraceEnd (swipePath s)] else [])"
  have far_eq: "far \<longleftrightarrow> num_gt (num_abs dx) (Finite 50) \<or> num_gt (num_abs dy) (Finite 50)"
    by (simp add: far_def num_gt_max)
  have ret: "\<exists>s'. handleTouchEnd arith settings props e s = Inr (fired, s')"
    using assms
    by (simp add: handleTouchEnd_def js_index_def Let_def fired_def far_eq wide_def)
  have left: "\<not> num_gt dx (Finite 0)" if "num_gt (Finite 0) dx"
    using that by (rule num_gt_asym)
  have swipe: "(\<forall>p. TraceEnd p \<notin> set fired) \<and>
              (SwipeRight \<in> set fired \<longleftrightarrow> wide \<and> num_gt dx (Finite 0)) \<and>
              (SwipeLeft \<in> set fired \<longleftrightarrow> wide \<and> num_gt (Finite 0) dx) \<and>
              (SwipeDown \<in> set fired \<longleftrightarrow> \<not> wide \<and> num_gt dy (Finite 0))"
    if far
    using that left by (auto simp: fired_def)
  have quiet: "decodeCalls (hostCallbacks settings genAI fired st) = decodeCalls st"
    if far
  proof -
    from that have "fired = [] \<or> fired = [SwipeRight] \<or> fired = [SwipeLeft] \<or> fired = [SwipeDown]"
      by (auto simp: fired_def)
    then show ?thesis
      by (auto simp: hostCallback_def swipe_callbacks_decodeCalls)
  qed
  have trace: "fired = [TraceEnd (swipePath s)] \<and>
              decodeCalls (hostCallbacks settings genAI fired st) =
                decodeCalls st @
                [(swipePath s, traceContext settings st, lang_code (language settings))]"
    if "\<not> far \<and> 2 < length (swipePath s)"
  proof -
    from that have f: "fired = [TraceEnd (swipePath s)]" and ne: "swipePath s \<noteq> []"
      by (auto simp: fired_def)
    then show ?thesis
      by (simp add: hostCallback_def handleTraceEnd_decodeCalls)
  qed
  have tap: "fired = [] \<and> hostCallbacks settings genAI fired st = st"
    if "\<not> far \<and> length (swipePath s) \<le> 2"
    using that by (auto simp: fired_def)
  from ret swipe quiet trace tap show ?thesis
    unfolding far_def wide_def by blast
qed

lemma exact_minus: "double_minus exactArith a b = Finite (a - b)"
  by (simp add: exactArith_def)

text \<open>
  C1 on a trace from \<open>(100, 100)\<close> that crossed \<open>helo\<close>: lifting at \<open>(105, 102)\<close> hands
  \<open>helo\<close> to the decoder, lifting at \<open>(40, 130)\<close> is a left swipe. The differences of these
  coordinates are whole numbers, which double arithmetic gives exactly.
\<close>

theorem touch_end_classifies_gesture_witness:
  "(\<exists>fired s'. handleTouchEnd exactArith tracingSettings hostProps (fingerAt (touchAt 105 102))
            (tracingFrom100 ''helo'') = Inr (fired, s') \<and> fired = [TraceEnd ''helo'']) \<and>
   (\<exists>fired s'. handleTouchEnd exactArith tracingSettings hostProps (fingerAt (touchAt 40 130))
            (tracingFrom100 ''helo'') = Inr (fired, s') \<and> SwipeLeft \<in> set fired \<and>
            SwipeRight \<notin> set fired \<and> SwipeDown \<notin> set fired \<and> TraceEnd ''helo'' \<notin> set fired)"
proof -
  have tr: "traceTyping tracingSettings"
    by (simp add: tracingSettings_def)
  have "Finite 5 = double_minus exactArith (clientX (touchAt 105 102)) 100"
    "Finite 2 = double_minus exactArith (clientY (touchAt 105 102)) 100"
    by (simp_all add: touchAt_def exact_minus)
  from touch_end_classifies_gesture
      [OF tr tracingFrom100_fields(1) [of "''helo''"] fingerAt_changed hostProps_callbacks this,
       of None "appWithText []"]
  have a: "\<exists>fired s'. handleTouchEnd exactArith tracingSettings hostProps
            (fingerAt (touchAt 105 102)) (tracingFrom100 ''helo'') = Inr (fired, s') \<and>
            fired = [TraceEnd ''helo'']"
    by (simp add: tracingFrom100_fields num_max_def)
  have "Finite (- 60) = double_minus exactArith (clientX (touchAt 40 130)) 100"
    "Finite 30 = double_minus exactArith (clientY (touchAt 40 130)) 100"
    by (simp_all add: touchAt_def exact_minus)
  from touch_end_classifies_gesture
      [OF tr tracingFrom100_fields(1) [of "''helo''"] fingerAt_changed hostProps_callbacks this,
       of None "appWithText []"]
  have b: "\<exists>fired s'. handleTouchEnd exactArith tracingSettings hostProps
            (fingerAt (touchAt 40 130)) (tracingFrom100 ''helo'') = Inr (fired, s') \<and>
            SwipeLeft \<in> set fired \<and> SwipeRight \<notin> set fired \<and> SwipeDown \<notin> set fired \<and>
            TraceEnd ''helo'' \<notin> set fired"
    by (simp add: num_max_def) blast
  from a b show ?thesis by blast
qed

end
